theory Spec2Isabelle
  imports Main
begin

section \<open>Data model\<close>

text \<open>
  The development follows \<^verbatim>\<open>main.go\<close>. The second source file of the repository is an
  earlier revision of the same program without persistence; its \<^verbatim>\<open>isSubregion\<close>,
  \<^verbatim>\<open>HasPermission\<close>, \<^verbatim>\<open>AddPermission\<close>, \<^verbatim>\<open>AddDistributor\<close> and
  \<^verbatim>\<open>CheckPermission\<close> are textually the same, so one model covers both.
\<close>

text \<open>
  Run-time panics of Go are values of the model: an index outside a slice, an assignment
  into a nil map, and a dereference of a pointer that names no object.
\<close>

datatype panic = IndexOutOfRange | NilMapAssignment | InvalidPointer

text \<open>
  The \<^verbatim>\<open>error\<close> values the program builds with \<^verbatim>\<open>fmt.Errorf\<close>, one constructor per
  message, carrying the string that is formatted into it.
\<close>

datatype error =
    DistributorExists string          \<comment> \<open>distributor %s already exists\<close>
  | ParentMissing string              \<comment> \<open>parent distributor %s does not exist\<close>
  | DistributorMissing string         \<comment> \<open>distributor %s does not exist\<close>
  | InvalidRegion string              \<comment> \<open>invalid region code: %s\<close>
  | ParentLacksPermission string      \<comment> \<open>parent distributor does not have permission for: %s\<close>

record Location =
  CityCode :: string
  ProvinceCode :: string
  CountryCode :: string
  CityName :: string
  ProvinceName :: string
  CountryName :: string

section \<open>Splitting a region code\<close>

text \<open>
  \<^verbatim>\<open>strings.Split(s, "-")\<close>: the separator of every call in the program is the one-byte
  string \<^verbatim>\<open>"-"\<close>, so the model takes a single character. A string with \<open>n\<close>
  separators gives \<open>n + 1\<close> pieces, the empty string gives one empty piece.
\<close>

fun strings_Split :: "string \<Rightarrow> char \<Rightarrow> string list" where
  "strings_Split [] sep = [[]]"
| "strings_Split (c # cs) sep =
     (if c = sep then [] # strings_Split cs sep
      else (case strings_Split cs sep of
              [] \<Rightarrow> [[c]]
            | w # ws \<Rightarrow> (c # w) # ws))"

section \<open>Region containment\<close>

text \<open>\<^verbatim>\<open>len\<close> of a slice is a Go \<^verbatim>\<open>int\<close>; \<^verbatim>\<open>len(region1)-1\<close> is \<open>-1\<close> on an empty slice.\<close>

definition len :: "'a list \<Rightarrow> int" where
  "len xs = int (length xs)"

text \<open>Reading \<^verbatim>\<open>xs[i]\<close>: Go checks the bounds and panics outside them.\<close>

definition slice_index :: "'a list \<Rightarrow> int \<Rightarrow> panic + 'a" where
  "slice_index xs i =
     (if 0 \<le> i \<and> i < len xs then Inr (xs ! nat i) else Inl IndexOutOfRange)"

text \<open>The comparison \<^verbatim>\<open>xs[i] == ys[j]\<close>, both reads checked, left operand first.\<close>

definition elem_eq :: "string list \<Rightarrow> int \<Rightarrow> string list \<Rightarrow> int \<Rightarrow> panic + bool" where
  "elem_eq xs i ys j =
     (case slice_index xs i of
        Inl e \<Rightarrow> Inl e
      | Inr x \<Rightarrow> (case slice_index ys j of
                   Inl e \<Rightarrow> Inl e
                 | Inr y \<Rightarrow> Inr (x = y)))"

text \<open>
  Go's \<^verbatim>\<open>a && b\<close>: the right operand is evaluated only when the left one is true, so a
  panic of the right operand is reached only then.
\<close>

definition and_then :: "panic + bool \<Rightarrow> panic + bool \<Rightarrow> panic + bool" where
  "and_then a b =
     (case a of
        Inl e \<Rightarrow> Inl e
      | Inr t \<Rightarrow> (if t then b else Inr False))"

definition isSubregion :: "string list \<Rightarrow> string list \<Rightarrow> panic + bool" where
  "isSubregion region1 region2 =
     (if len region2 = 1 then
        elem_eq region1 (len region1 - 1) region2 0
      else if len region2 = 2 then
        and_then (Inr (len region1 \<ge> 2))
          (and_then (elem_eq region1 (len region1 - 2) region2 0)
                    (elem_eq region1 (len region1 - 1) region2 1))
      else if len region2 = 3 then
        and_then (Inr (len region1 = 3))
          (and_then (elem_eq region1 0 region2 0)
            (and_then (elem_eq region1 1 region2 1)
                      (elem_eq region1 2 region2 2)))
      else Inr False)"

text \<open>
  The containment rule in the words of the specification, for comparison with the code:
  a one-segment pattern matches when the candidate's last segment is that segment, a
  two-segment pattern when the candidate has at least two segments and its last two are
  the pattern, a three-segment pattern when the candidate has exactly three segments and
  is the pattern, and no other pattern matches.
\<close>

definition contains_spec :: "string list \<Rightarrow> string list \<Rightarrow> bool" where
  "contains_spec candidate pattern =
     (if length pattern = 1 then last candidate = hd pattern
      else if length pattern = 2 then
        length candidate \<ge> 2 \<and> drop (length candidate - 2) candidate = pattern
      else if length pattern = 3 then
        length candidate = 3 \<and> candidate = pattern
      else False)"

section \<open>Distributors on the heap\<close>

text \<open>
  A \<^verbatim>\<open>*Distributor\<close> is an address. The heap is the list of all distributor objects
  allocated so far: address \<open>a\<close> names the object \<open>h ! a\<close> when \<open>a < length h\<close>, and
  allocation appends, so a new object never disturbs an old one. A child holds the
  address of its parent, so a rule added to the parent is seen by every descendant.
\<close>

type_synonym addr = nat

text \<open>
  A \<^verbatim>\<open>map[string]bool\<close>: \<open>None\<close> is the nil map (what a state file without the field
  decodes to), \<open>Some kvs\<close> a map with the entries \<open>kvs\<close>, each key once. The order of
  \<open>kvs\<close> stands for the order in which one \<^verbatim>\<open>range\<close> enumerates the keys; Go fixes no
  such order.
\<close>

type_synonym rules = "(string \<times> bool) list option"

record Distributor =
  Name :: string
  Parent :: "addr option"
  Includes :: rules
  Excludes :: rules
  Locations :: "string \<rightharpoonup> Location"

type_synonym heap = "Distributor list"

text \<open>The keys a \<^verbatim>\<open>for k := range m\<close> visits; a nil map has none.\<close>

definition range_keys :: "rules \<Rightarrow> string list" where
  "range_keys m = (case m of None \<Rightarrow> [] | Some kvs \<Rightarrow> map fst kvs)"

text \<open>\<^verbatim>\<open>m[k] = v\<close> on the entries of a map that is not nil.\<close>

fun put :: "string \<Rightarrow> bool \<Rightarrow> (string \<times> bool) list \<Rightarrow> (string \<times> bool) list" where
  "put k v [] = [(k, v)]"
| "put k v ((k', v') # kvs) = (if k = k' then (k, v) # kvs else (k', v') # put k v kvs)"

text \<open>\<^verbatim>\<open>NewDistributor\<close>: a fresh object with two empty maps, and its address.\<close>

definition NewDistributor :: "heap \<Rightarrow> string \<Rightarrow> addr option \<Rightarrow> heap \<times> addr" where
  "NewDistributor h name parent =
     (h @ [\<lparr>Name = name, Parent = parent, Includes = Some [], Excludes = Some [],
            Locations = Map.empty\<rparr>],
      length h)"

section \<open>Authorization evaluation\<close>

text \<open>
  Both loops of \<^verbatim>\<open>HasPermission\<close> have the shape
  \<^verbatim>\<open>for k := range m { if isSubregion(parts, strings.Split(k, "-")) { return ... } }\<close>.
  \<open>range_match\<close> runs such a loop over the keys in the order given and tells whether
  the body was entered (\<open>Inr True\<close>), the loop ran out (\<open>Inr False\<close>), or a test panicked.
\<close>

fun range_match :: "string list \<Rightarrow> string list \<Rightarrow> panic + bool" where
  "range_match parts [] = Inr False"
| "range_match parts (k # ks) =
     (case isSubregion parts (strings_Split k CHR ''-'') of
        Inl e \<Rightarrow> Inl e
      | Inr hit \<Rightarrow> (if hit then Inr True else range_match parts ks))"

text \<open>
  \<^verbatim>\<open>(d *Distributor) HasPermission(region)\<close>. The result is \<open>None\<close> when the evaluation
  never returns (a cycle of parents), \<open>Some (Inl p)\<close> when it panics, and
  \<open>Some (Inr (answer, calls))\<close> when it returns \<open>answer\<close>; \<open>calls\<close> lists the receivers on
  which \<^verbatim>\<open>HasPermission\<close> was entered during the evaluation, in call order.
\<close>

partial_function (option) HasPermission ::
  "heap \<Rightarrow> addr \<Rightarrow> string \<Rightarrow> (panic + bool \<times> addr list) option" where
  "HasPermission h d region =
     (if length h \<le> d then Some (Inl InvalidPointer)
      else
        (let parts = strings_Split region CHR ''-'' in
         case range_match parts (range_keys (Excludes (h ! d))) of
           Inl e \<Rightarrow> Some (Inl e)
         | Inr excluded \<Rightarrow>
             if excluded then Some (Inr (False, [d]))
             else
               (case range_match parts (range_keys (Includes (h ! d))) of
                  Inl e \<Rightarrow> Some (Inl e)
                | Inr included \<Rightarrow>
                    if included then
                      (case Parent (h ! d) of
                         Some p \<Rightarrow>
                           Option.bind (HasPermission h p region)
                             (\<lambda>r. Some (map_sum id (\<lambda>(answer, calls). (answer, d # calls)) r))
                       | None \<Rightarrow> Some (Inr (True, [d])))
                    else Some (Inr (False, [d])))))"

declare HasPermission.simps [code]

section \<open>Rule mutation\<close>

text \<open>
  The second half of \<^verbatim>\<open>(d *Distributor) AddPermission\<close>: the assignment into the include
  or the exclude map of the object at \<open>d\<close>. Assigning into a nil map panics.
\<close>

definition store_rule :: "heap \<Rightarrow> addr \<Rightarrow> string \<Rightarrow> bool \<Rightarrow> panic + error option \<times> heap" where
  "store_rule h d permission isInclude =
     (if isInclude then
        (case Includes (h ! d) of
           None \<Rightarrow> Inl NilMapAssignment
         | Some kvs \<Rightarrow>
             Inr (None, h[d := (h ! d)\<lparr>Includes := Some (put permission True kvs)\<rparr>]))
      else
        (case Excludes (h ! d) of
           None \<Rightarrow> Inl NilMapAssignment
         | Some kvs \<Rightarrow>
             Inr (None, h[d := (h ! d)\<lparr>Excludes := Some (put permission True kvs)\<rparr>])))"

text \<open>
  \<^verbatim>\<open>(d *Distributor) AddPermission(permission, isInclude)\<close>: the returned \<^verbatim>\<open>error\<close>
  (\<open>None\<close> is \<^verbatim>\<open>nil\<close>) and the heap after the call.
\<close>

definition AddPermission ::
  "heap \<Rightarrow> addr \<Rightarrow> string \<Rightarrow> bool \<Rightarrow> (panic + error option \<times> heap) option" where
  "AddPermission h d permission isInclude =
     (if length h \<le> d then Some (Inl InvalidPointer)
      else
        (case Parent (h ! d) of
           Some p \<Rightarrow>
             (case HasPermission h p permission of
                None \<Rightarrow> None
              | Some (Inl e) \<Rightarrow> Some (Inl e)
              | Some (Inr (answer, calls)) \<Rightarrow>
                  if \<not> answer then Some (Inr (Some (ParentLacksPermission permission), h))
                  else Some (store_rule h d permission isInclude))
         | None \<Rightarrow> Some (store_rule h d permission isInclude)))"

section \<open>The system facade\<close>

record DistributionSystem =
  distributors :: "string \<rightharpoonup> addr"
  locations :: "string \<rightharpoonup> Location"

definition ValidateRegion :: "DistributionSystem \<Rightarrow> string \<Rightarrow> bool" where
  "ValidateRegion ds region = (locations ds region \<noteq> None)"

text \<open>
  \<^verbatim>\<open>(ds *DistributionSystem) AddDistributor(name, parentName)\<close>: the returned error, the
  heap and the system after the call.
\<close>

definition AddDistributor ::
  "heap \<Rightarrow> DistributionSystem \<Rightarrow> string \<Rightarrow> string
     \<Rightarrow> error option \<times> heap \<times> DistributionSystem" where
  "AddDistributor h ds name parentName =
     (case distributors ds name of
        Some _ \<Rightarrow> (Some (DistributorExists name), h, ds)
      | None \<Rightarrow>
          (case (if parentName \<noteq> []
                 then (case distributors ds parentName of
                         None \<Rightarrow> Inl (ParentMissing parentName)
                       | Some p \<Rightarrow> Inr (Some p))
                 else Inr None) of
             Inl e \<Rightarrow> (Some e, h, ds)
           | Inr parent \<Rightarrow>
               (let (h1, distributor) = NewDistributor h name parent;
                    h2 = h1[distributor := (h1 ! distributor)\<lparr>Locations := locations ds\<rparr>]
                in (None, h2, ds\<lparr>distributors := (distributors ds)(name \<mapsto> distributor)\<rparr>))))"

text \<open>\<^verbatim>\<open>(ds *DistributionSystem) AddPermission(distributorName, region, isInclude)\<close>.\<close>

definition System_AddPermission ::
  "heap \<Rightarrow> DistributionSystem \<Rightarrow> string \<Rightarrow> string \<Rightarrow> bool
     \<Rightarrow> (panic + error option \<times> heap \<times> DistributionSystem) option" where
  "System_AddPermission h ds distributorName region isInclude =
     (case distributors ds distributorName of
        None \<Rightarrow> Some (Inr (Some (DistributorMissing distributorName), h, ds))
      | Some distributor \<Rightarrow>
          if \<not> ValidateRegion ds region then Some (Inr (Some (InvalidRegion region), h, ds))
          else map_option (map_sum id (\<lambda>(e, h'). (e, h', ds)))
                 (AddPermission h distributor region isInclude))"

text \<open>
  \<^verbatim>\<open>(ds *DistributionSystem) CheckPermission(distributorName, region)\<close>: the pair
  \<^verbatim>\<open>(bool, error)\<close> it returns, and the receivers on which \<^verbatim>\<open>HasPermission\<close> was
  entered on the way.
\<close>

definition CheckPermission ::
  "heap \<Rightarrow> DistributionSystem \<Rightarrow> string \<Rightarrow> string
     \<Rightarrow> (panic + bool \<times> error option \<times> addr list) option" where
  "CheckPermission h ds distributorName region =
     (case distributors ds distributorName of
        None \<Rightarrow> Some (Inr (False, Some (DistributorMissing distributorName), []))
      | Some distributor \<Rightarrow>
          if \<not> ValidateRegion ds region
          then Some (Inr (False, Some (InvalidRegion region), []))
          else map_option (map_sum id (\<lambda>(answer, calls). (answer, None, calls)))
                 (HasPermission h distributor region))"

section \<open>Vocabulary of the properties\<close>

text \<open>Some rule of the set contains the region, under \<open>isSubregion\<close>.\<close>

definition some_rule_contains :: "rules \<Rightarrow> string \<Rightarrow> bool" where
  "some_rule_contains m region =
     (\<exists>k \<in> set (range_keys m).
        isSubregion (strings_Split region CHR ''-'') (strings_Split k CHR ''-'') = Inr True)"

text \<open>
  The parent chain of \<open>d\<close> is acyclic: following parent links from \<open>d\<close> reaches, through
  allocated objects only, a distributor without a parent.
\<close>

inductive parent_chain :: "heap \<Rightarrow> addr \<Rightarrow> bool" where
  root: "d < length h \<Longrightarrow> Parent (h ! d) = None \<Longrightarrow> parent_chain h d"
| child: "d < length h \<Longrightarrow> Parent (h ! d) = Some p \<Longrightarrow> parent_chain h p \<Longrightarrow> parent_chain h d"

text \<open>
  Two objects that differ at most in the order (and the stored booleans) of their include
  and exclude entries: two enumerations of the same two key sets.
\<close>

definition same_rules :: "Distributor \<Rightarrow> Distributor \<Rightarrow> bool" where
  "same_rules a b =
     (Name a = Name b \<and> Parent a = Parent b
      \<and> set (range_keys (Includes a)) = set (range_keys (Includes b))
      \<and> set (range_keys (Excludes a)) = set (range_keys (Excludes b)))"

section \<open>Examples\<close>

text \<open>
  A root \<open>ROOT\<close> that includes \<open>US\<close> and excludes \<open>CA-US\<close>, at address 0, and its child
  \<open>KID\<close> at address 1 that includes \<open>NY-US\<close>.
\<close>

definition ex_root :: Distributor where
  "ex_root = \<lparr>Name = ''ROOT'', Parent = None, Includes = Some [(''US'', True)],
              Excludes = Some [(''CA-US'', True)], Locations = Map.empty\<rparr>"

definition ex_kid :: Distributor where
  "ex_kid = \<lparr>Name = ''KID'', Parent = Some 0, Includes = Some [(''NY-US'', True)],
             Excludes = Some [], Locations = Map.empty\<rparr>"

definition ex_heap :: heap where
  "ex_heap = [ex_root, ex_kid]"

text \<open>
  Two versions of a root whose include and exclude entries are the same sets of keys,
  enumerated in opposite orders.
\<close>

definition ex_root_a :: Distributor where
  "ex_root_a = \<lparr>Name = ''ROOT'', Parent = None,
                Includes = Some [(''US'', True), (''FR'', True)],
                Excludes = Some [(''CA-US'', True), (''IF-FR'', True)],
                Locations = Map.empty\<rparr>"

definition ex_root_b :: Distributor where
  "ex_root_b = \<lparr>Name = ''ROOT'', Parent = None,
                Includes = Some [(''FR'', True), (''US'', True)],
                Excludes = Some [(''IF-FR'', True), (''CA-US'', True)],
                Locations = Map.empty\<rparr>"

definition ex_nyc :: Location where
  "ex_nyc = \<lparr>CityCode = ''NYC'', ProvinceCode = ''NY'', CountryCode = ''US'',
             CityName = ''New York'', ProvinceName = ''New York'',
             CountryName = ''United States''\<rparr>"

definition ex_paris :: Location where
  "ex_paris = \<lparr>CityCode = ''PAR'', ProvinceCode = ''IF'', CountryCode = ''FR'',
               CityName = ''Paris'', ProvinceName = ''Ile-de-France'',
               CountryName = ''France''\<rparr>"

text \<open>The two distributors registered under their names, and a catalog of two cities.\<close>

definition ex_system :: DistributionSystem where
  "ex_system = \<lparr>distributors = [''ROOT'' \<mapsto> 0, ''KID'' \<mapsto> 1],
                locations = [''NYC-NY-US'' \<mapsto> ex_nyc, ''NY-US'' \<mapsto> ex_nyc, ''US'' \<mapsto> ex_nyc,
                             ''PAR-IF-FR'' \<mapsto> ex_paris, ''IF-FR'' \<mapsto> ex_paris,
                             ''FR'' \<mapsto> ex_paris]\<rparr>"

section \<open>Containment: the code against the specification\<close>

lemma slice_index_nat: "n < length xs \<Longrightarrow> i = int n \<Longrightarrow> slice_index xs i = Inr (xs ! n)"
  by (simp add: slice_index_def len_def)

lemma slice_index_append_last:
  "slice_index (zs @ [x]) (len (zs @ [x]) - 1) = Inr x"
  by (simp add: slice_index_nat[where n="length zs"] len_def)

lemma slice_index_append_last2:
  "slice_index (zs @ [x, y]) (len (zs @ [x, y]) - 2) = Inr x"
  by (simp add: slice_index_nat[where n="length zs"] len_def)

lemma slice_index_append_last1:
  "slice_index (zs @ [x, y]) (len (zs @ [x, y]) - 1) = Inr y"
  by (simp add: slice_index_nat[where n="Suc (length zs)"] len_def nth_append)

lemma two_or_more: "2 \<le> length c \<Longrightarrow> \<exists>zs x y. c = zs @ [x, y]"
proof (cases c rule: rev_cases)
  case Nil
  assume "2 \<le> length c"
  with Nil show ?thesis by simp
next
  case (snoc ys y)
  assume l: "2 \<le> length c"
  show ?thesis
  proof (cases ys rule: rev_cases)
    case Nil
    with snoc l show ?thesis by simp
  next
    case (snoc zs x)
    with \<open>c = ys @ [y]\<close> show ?thesis by simp
  qed
qed

lemma one_elem: "length c = 1 \<Longrightarrow> \<exists>x. c = [x]"
  by (auto simp: length_Suc_conv)

lemma two_elems: "length c = 2 \<Longrightarrow> \<exists>x y. c = [x, y]"
  by (auto simp: numeral_2_eq_2 length_Suc_conv)

lemma three_elems: "length c = 3 \<Longrightarrow> \<exists>x y z. c = [x, y, z]"
  by (auto simp: numeral_3_eq_3 length_Suc_conv)

lemma isSubregion_one:
  assumes "c \<noteq> []"
  shows "isSubregion c [s] = Inr (last c = s)"
proof (cases c rule: rev_cases)
  case Nil
  with assms show ?thesis by simp
next
  case (snoc zs x)
  have "slice_index [s] 0 = Inr s" by (simp add: slice_index_def len_def)
  moreover have "len [s] = 1" by (simp add: len_def)
  ultimately show ?thesis unfolding snoc
    by (simp add: isSubregion_def elem_eq_def slice_index_append_last)
qed

lemma isSubregion_two:
  "isSubregion c [s, t] = Inr (length c \<ge> 2 \<and> drop (length c - 2) c = [s, t])"
proof (cases "length c \<ge> 2")
  case False
  then show ?thesis by (simp add: isSubregion_def len_def and_then_def)
next
  case True
  then obtain zs x y where c: "c = zs @ [x, y]" using two_or_more by blast
  have p: "slice_index [s, t] 0 = Inr s" "slice_index [s, t] 1 = Inr t"
    by (simp_all add: slice_index_def len_def)
  have l: "len [s, t] = 2" "2 \<le> len (zs @ [x, y])" by (simp_all add: len_def)
  show ?thesis unfolding c
    by (simp add: isSubregion_def elem_eq_def and_then_def slice_index_append_last2
        slice_index_append_last1 p l)
qed

lemma isSubregion_three:
  "isSubregion c [s, t, u] = Inr (length c = 3 \<and> c = [s, t, u])"
proof (cases "length c = 3")
  case False
  then show ?thesis by (auto simp add: isSubregion_def len_def and_then_def)
next
  case True
  then obtain x y z where c: "c = [x, y, z]" using three_elems by blast
  show ?thesis unfolding c
    by (simp add: isSubregion_def elem_eq_def and_then_def slice_index_def len_def)
qed

lemma isSubregion_other:
  "length p \<noteq> 1 \<Longrightarrow> length p \<noteq> 2 \<Longrightarrow> length p \<noteq> 3 \<Longrightarrow> isSubregion c p = Inr False"
  by (simp add: isSubregion_def len_def)

lemma isSubregion_nonempty:
  assumes "c \<noteq> []"
  shows "isSubregion c p = Inr (contains_spec c p)"
proof -
  consider (one) "length p = 1" | (two) "length p = 2" | (three) "length p = 3"
    | (other) "length p \<noteq> 1" "length p \<noteq> 2" "length p \<noteq> 3"
    by blast
  then show ?thesis
  proof cases
    case one
    then obtain s where "p = [s]" using one_elem by blast
    with assms show ?thesis by (simp add: isSubregion_one contains_spec_def)
  next
    case two
    then obtain s t where "p = [s, t]" using two_elems by blast
    then show ?thesis by (simp add: isSubregion_two contains_spec_def)
  next
    case three
    then obtain s t u where "p = [s, t, u]" using three_elems by blast
    then show ?thesis by (simp add: isSubregion_three contains_spec_def)
  next
    case other
    then show ?thesis by (simp add: isSubregion_other contains_spec_def)
  qed
qed

text \<open>
  C2. For a candidate of one to three segments and any pattern, \<open>isSubregion\<close> returns,
  without panic, exactly what the specification's containment rule says: a one-segment
  pattern matches iff the candidate's last segment is that segment; a two-segment pattern
  iff the candidate has at least two segments and its last two are the pattern in order;
  a three-segment pattern iff the candidate has exactly three segments, equal to the
  pattern's in order; a pattern of any other length never matches.
\<close>

theorem isSubregion_meets_spec:
  assumes "1 \<le> length candidate" and "length candidate \<le> 3"
  shows "isSubregion candidate pattern = Inr (contains_spec candidate pattern)"
proof -
  from assms have "candidate \<noteq> []" by auto
  then show ?thesis by (rule isSubregion_nonempty)
qed

theorem isSubregion_meets_spec_witness:
  "1 \<le> length [''NYC'', ''NY'', ''US''] \<and> length [''NYC'', ''NY'', ''US''] \<le> 3
   \<and> isSubregion [''NYC'', ''NY'', ''US''] [''NY'', ''US''] = Inr True
   \<and> contains_spec [''NYC'', ''NY'', ''US''] [''NY'', ''US'']"
  using isSubregion_meets_spec[of "[''NYC'', ''NY'', ''US'']" "[''NY'', ''US'']"]
  by (simp add: contains_spec_def)


section \<open>Evaluation, rule by rule\<close>

lemma strings_Split_nonempty: "strings_Split s sep \<noteq> []"
  by (induction s) (auto split: list.splits)

lemma range_match_total:
  assumes "parts \<noteq> []"
  shows "range_match parts ks =
           Inr (\<exists>k \<in> set ks. isSubregion parts (strings_Split k CHR ''-'') = Inr True)"
  using assms by (induction ks) (auto simp: isSubregion_nonempty)

lemma range_match_rules:
  "range_match (strings_Split region CHR ''-'') (range_keys m) = Inr (some_rule_contains m region)"
  by (simp add: range_match_total strings_Split_nonempty some_rule_contains_def)

lemma HasPermission_unfold:
  assumes "d < length h"
  shows "HasPermission h d region =
     (if some_rule_contains (Excludes (h ! d)) region then Some (Inr (False, [d]))
      else if some_rule_contains (Includes (h ! d)) region then
        (case Parent (h ! d) of
           None \<Rightarrow> Some (Inr (True, [d]))
         | Some p \<Rightarrow>
             Option.bind (HasPermission h p region)
               (\<lambda>r. Some (map_sum id (\<lambda>(answer, calls). (answer, d # calls)) r)))
      else Some (Inr (False, [d])))"
  using assms
  by (subst HasPermission.simps) (simp add: range_match_rules Let_def)

lemma HasPermission_invalid:
  "length h \<le> d \<Longrightarrow> HasPermission h d region = Some (Inl InvalidPointer)"
  by (subst HasPermission.simps) simp

lemma ex_heap_facts:
  "length ex_heap = 2" "ex_heap ! 0 = ex_root" "ex_heap ! 1 = ex_kid"
  "ex_heap ! Suc 0 = ex_kid"
  by (simp_all add: ex_heap_def)

lemma split_examples:
  "strings_Split ''US'' CHR ''-'' = [''US'']"
  "strings_Split ''CA-US'' CHR ''-'' = [''CA'', ''US'']"
  "strings_Split ''NY-US'' CHR ''-'' = [''NY'', ''US'']"
  "strings_Split ''LA-CA-US'' CHR ''-'' = [''LA'', ''CA'', ''US'']"
  "strings_Split ''FR'' CHR ''-'' = [''FR'']"
  by simp_all

lemma ex_root_rules:
  "some_rule_contains (Excludes ex_root) ''LA-CA-US''"
  "some_rule_contains (Includes ex_root) ''LA-CA-US''"
  "\<not> some_rule_contains (Excludes ex_root) ''NY-US''"
  "some_rule_contains (Includes ex_root) ''NY-US''"
  "\<not> some_rule_contains (Excludes ex_root) ''FR''"
  "\<not> some_rule_contains (Includes ex_root) ''FR''"
  by (simp_all add: ex_root_def some_rule_contains_def range_keys_def split_examples
      isSubregion_one isSubregion_two)

lemma ex_kid_rules:
  "\<not> some_rule_contains (Excludes ex_kid) ''NY-US''"
  "some_rule_contains (Includes ex_kid) ''NY-US''"
  by (simp_all add: ex_kid_def some_rule_contains_def range_keys_def split_examples
      isSubregion_two)

lemma ex_root_answers:
  "HasPermission ex_heap 0 ''NY-US'' = Some (Inr (True, [0]))"
  "HasPermission ex_heap 0 ''FR'' = Some (Inr (False, [0]))"
  by (simp_all add: HasPermission_unfold ex_heap_facts ex_root_rules) (simp_all add: ex_root_def)

lemma ex_kid_answer: "HasPermission ex_heap 1 ''NY-US'' = Some (Inr (True, [1, 0]))"
  by (simp add: HasPermission_unfold ex_heap_facts ex_kid_rules ex_root_answers)
     (simp add: ex_kid_def ex_root_answers)

text \<open>
  C3. Whenever some exclude rule of a distributor contains the region, \<open>HasPermission\<close>
  returns false whatever the include rules are, and the only call of the evaluation is
  the one on the distributor itself: the parent is not consulted.
\<close>

theorem exclude_wins:
  assumes "d < length h"
    and "some_rule_contains (Excludes (h ! d)) region"
  shows "HasPermission h d region = Some (Inr (False, [d]))"
  using assms by (simp add: HasPermission_unfold)

theorem exclude_wins_witness:
  "0 < length ex_heap
   \<and> some_rule_contains (Excludes (ex_heap ! 0)) ''LA-CA-US''
   \<and> some_rule_contains (Includes (ex_heap ! 0)) ''LA-CA-US''
   \<and> HasPermission ex_heap 0 ''LA-CA-US'' = Some (Inr (False, [0]))"
proof -
  have a: "0 < length ex_heap" by (simp add: ex_heap_facts)
  have b: "some_rule_contains (Excludes (ex_heap ! 0)) ''LA-CA-US''"
    by (simp add: ex_heap_facts ex_root_rules)
  have c: "some_rule_contains (Includes (ex_heap ! 0)) ''LA-CA-US''"
    by (simp add: ex_heap_facts ex_root_rules)
  from a b c exclude_wins[OF a b] show ?thesis by simp
qed

text \<open>
  C4. When no exclude rule of the distributor contains the region: if some include rule
  contains it and the distributor has a parent, the evaluation is the parent's evaluation
  for the same region (the same answer, the same panic, or no return at all), with the
  call on the distributor in front of the parent's calls; if some include rule contains it
  and there is no parent, the answer is true; if no include rule contains it, the answer
  is false.
\<close>

theorem include_defers_to_parent:
  assumes "d < length h"
    and "\<not> some_rule_contains (Excludes (h ! d)) region"
  shows "(some_rule_contains (Includes (h ! d)) region \<and> Parent (h ! d) = Some p \<longrightarrow>
            HasPermission h d region =
              map_option (map_sum id (\<lambda>(answer, calls). (answer, d # calls)))
                (HasPermission h p region))
       \<and> (some_rule_contains (Includes (h ! d)) region \<and> Parent (h ! d) = None \<longrightarrow>
            HasPermission h d region = Some (Inr (True, [d])))
       \<and> (\<not> some_rule_contains (Includes (h ! d)) region \<longrightarrow>
            HasPermission h d region = Some (Inr (False, [d])))"
  using assms
  by (cases "HasPermission h p region") (simp_all add: HasPermission_unfold)

theorem include_defers_to_parent_witness:
  "1 < length ex_heap
   \<and> \<not> some_rule_contains (Excludes (ex_heap ! 1)) ''NY-US''
   \<and> some_rule_contains (Includes (ex_heap ! 1)) ''NY-US''
   \<and> Parent (ex_heap ! 1) = Some 0
   \<and> HasPermission ex_heap 0 ''NY-US'' = Some (Inr (True, [0]))
   \<and> HasPermission ex_heap 1 ''NY-US'' = Some (Inr (True, [1, 0]))"
proof -
  have a: "1 < length ex_heap" by (simp add: ex_heap_facts)
  have b: "\<not> some_rule_contains (Excludes (ex_heap ! 1)) ''NY-US''"
    by (simp add: ex_heap_facts ex_kid_rules)
  have c: "some_rule_contains (Includes (ex_heap ! 1)) ''NY-US''"
    by (simp add: ex_heap_facts ex_kid_rules)
  have p: "Parent (ex_heap ! 1) = Some 0" by (simp add: ex_heap_facts ex_kid_def)
  from a b c p include_defers_to_parent[OF a b, of 0] show ?thesis
    by (simp add: ex_root_answers)
qed

text \<open>
  C5. At query time a child is never authorized beyond its parent: if a distributor has a
  parent and \<open>HasPermission\<close> answers true for it on a region, then \<open>HasPermission\<close>
  answers true for the parent on that region, whatever the include and exclude sets of
  the two hold.
\<close>

theorem child_within_parent:
  assumes "d < length h"
    and "Parent (h ! d) = Some p"
    and "HasPermission h d region = Some (Inr (True, calls))"
  shows "\<exists>calls'. HasPermission h p region = Some (Inr (True, calls'))"
proof -
  from assms have "Option.bind (HasPermission h p region)
       (\<lambda>r. Some (map_sum id (\<lambda>(answer, calls). (answer, d # calls)) r)) = Some (Inr (True, calls))"
    by (simp add: HasPermission_unfold split: if_splits)
  then obtain r where r: "HasPermission h p region = Some r"
    and m: "map_sum id (\<lambda>(answer, calls). (answer, d # calls)) r = Inr (True, calls)"
    by (auto simp: bind_eq_Some_conv)
  from m obtain calls' where "r = Inr (True, calls')"
    by (cases r) auto
  with r show ?thesis by simp
qed

theorem child_within_parent_witness:
  "1 < length ex_heap \<and> Parent (ex_heap ! 1) = Some 0
   \<and> HasPermission ex_heap 1 ''NY-US'' = Some (Inr (True, [1, 0]))
   \<and> (\<exists>calls'. HasPermission ex_heap 0 ''NY-US'' = Some (Inr (True, calls')))"
proof -
  have a: "1 < length ex_heap" by (simp add: ex_heap_facts)
  have p: "Parent (ex_heap ! 1) = Some 0" by (simp add: ex_heap_facts ex_kid_def)
  have t: "HasPermission ex_heap 1 ''NY-US'' = Some (Inr (True, [1, 0]))"
    by (rule ex_kid_answer)
  from a p t child_within_parent[OF a p t] show ?thesis by simp
qed

section \<open>Rule mutation and the facade\<close>


lemma AddPermission_with_parent:
  assumes "d < length h" and "Parent (h ! d) = Some p"
    and "HasPermission h p region = Some (Inr (answer, calls))"
  shows "AddPermission h d region isInclude =
           (if answer then Some (store_rule h d region isInclude)
            else Some (Inr (Some (ParentLacksPermission region), h)))"
  using assms by (simp add: AddPermission_def)

lemma store_rule_no_error: "store_rule h d region isInclude \<noteq> Inr (Some e, h')"
  by (simp add: store_rule_def split: option.splits)

text \<open>
  C1, as the code has it. The parent check of \<open>AddPermission\<close> stands before the choice
  between the two maps, so it gates include and exclude insertions alike: for a
  distributor with a parent, the call is rejected with the parent-denial error exactly
  when the parent does not authorize the region, whether the rule to add is an include or
  an exclude.
\<close>

theorem parent_check_gates_both_kinds:
  assumes "d < length h" and "Parent (h ! d) = Some p"
    and "HasPermission h p region = Some (Inr (answer, calls))"
  shows "(\<exists>h'. AddPermission h d region isInclude =
                 Some (Inr (Some (ParentLacksPermission region), h'))) \<longleftrightarrow> \<not> answer"
  using assms store_rule_no_error[of h d region isInclude]
  by (auto simp add: AddPermission_with_parent)

text \<open>
  An exclude insertion is subject to the check: the child of a root that does not
  authorize \<open>FR\<close> may not exclude \<open>FR\<close>.
\<close>

theorem exclude_is_gated_counterexample:
  "Parent (ex_heap ! 1) = Some 0
   \<and> HasPermission ex_heap 0 ''FR'' = Some (Inr (False, [0]))
   \<and> AddPermission ex_heap 1 ''FR'' False = Some (Inr (Some (ParentLacksPermission ''FR''), ex_heap))"
proof -
  have a: "1 < length ex_heap" by (simp add: ex_heap_facts)
  have p: "Parent (ex_heap ! 1) = Some 0" by (simp add: ex_heap_facts ex_kid_def)
  have n: "HasPermission ex_heap 0 ''FR'' = Some (Inr (False, [0]))"
    by (rule ex_root_answers)
  from p n AddPermission_with_parent[OF a p n, of False] show ?thesis by simp
qed

theorem parent_check_gates_both_kinds_witness:
  "1 < length ex_heap \<and> Parent (ex_heap ! 1) = Some 0
   \<and> HasPermission ex_heap 0 ''FR'' = Some (Inr (False, [0]))
   \<and> (\<exists>h'. AddPermission ex_heap 1 ''FR'' False =
               Some (Inr (Some (ParentLacksPermission ''FR''), h')))
   \<and> (\<exists>h'. AddPermission ex_heap 1 ''FR'' True =
               Some (Inr (Some (ParentLacksPermission ''FR''), h')))"
proof -
  have a: "1 < length ex_heap" by (simp add: ex_heap_facts)
  have p: "Parent (ex_heap ! 1) = Some 0" by (simp add: ex_heap_facts ex_kid_def)
  have n: "HasPermission ex_heap 0 ''FR'' = Some (Inr (False, [0]))"
    by (rule ex_root_answers)
  from a p n parent_check_gates_both_kinds[OF a p n, of False]
    parent_check_gates_both_kinds[OF a p n, of True]
  show ?thesis by simp
qed

text \<open>
  C6. A rejected \<open>AddPermission\<close> changes nothing: for a distributor with a parent and a
  region the parent does not authorize, the call on the distributor returns the
  parent-denial error with the heap as it was, so the include and exclude sets of this and
  of every other distributor are untouched; and the call through the system, for a name
  registered for that distributor and a region of the catalog, returns the same error
  with heap and system as they were.
\<close>

theorem rejected_AddPermission_is_atomic:
  assumes "d < length h" and "Parent (h ! d) = Some p"
    and "HasPermission h p region = Some (Inr (False, calls))"
  shows "AddPermission h d region isInclude =
           Some (Inr (Some (ParentLacksPermission region), h))
       \<and> (distributors ds name = Some d \<and> ValidateRegion ds region \<longrightarrow>
            System_AddPermission h ds name region isInclude =
              Some (Inr (Some (ParentLacksPermission region), h, ds)))"
proof -
  have node: "AddPermission h d region isInclude =
      Some (Inr (Some (ParentLacksPermission region), h))"
    using AddPermission_with_parent[OF assms] by simp
  then show ?thesis by (simp add: System_AddPermission_def)
qed

lemma ex_system_facts:
  "distributors ex_system ''KID'' = Some 1"
  "distributors ex_system ''ROOT'' = Some 0"
  "distributors ex_system ''NOBODY'' = None"
  "ValidateRegion ex_system ''FR''"
  "ValidateRegion ex_system ''US''"
  "\<not> ValidateRegion ex_system ''XX''"
  by (simp_all add: ex_system_def ValidateRegion_def)

theorem rejected_AddPermission_is_atomic_witness:
  "1 < length ex_heap \<and> Parent (ex_heap ! 1) = Some 0
   \<and> HasPermission ex_heap 0 ''FR'' = Some (Inr (False, [0]))
   \<and> distributors ex_system ''KID'' = Some 1 \<and> ValidateRegion ex_system ''FR''
   \<and> AddPermission ex_heap 1 ''FR'' True = Some (Inr (Some (ParentLacksPermission ''FR''), ex_heap))
   \<and> System_AddPermission ex_heap ex_system ''KID'' ''FR'' True =
        Some (Inr (Some (ParentLacksPermission ''FR''), ex_heap, ex_system))"
proof -
  have a: "1 < length ex_heap" by (simp add: ex_heap_facts)
  have p: "Parent (ex_heap ! 1) = Some 0" by (simp add: ex_heap_facts ex_kid_def)
  have n: "HasPermission ex_heap 0 ''FR'' = Some (Inr (False, [0]))"
    by (rule ex_root_answers)
  from a p n rejected_AddPermission_is_atomic[OF a p n, of True ex_system "''KID''"]
  show ?thesis by (simp add: ex_system_facts)
qed

text \<open>
  C8, as the code has it. \<open>CheckPermission\<close> looks the distributor up before it validates
  the region. For a region that is not a key of the catalog it returns an error with no
  call of \<open>HasPermission\<close> on any distributor: the invalid-region error when the name is
  registered, the unknown-distributor error when it is not.
\<close>

theorem CheckPermission_unknown_region:
  assumes "\<not> ValidateRegion ds region"
  shows "CheckPermission h ds name region =
           Some (Inr (False,
                      Some (if distributors ds name = None then DistributorMissing name
                            else InvalidRegion region),
                      []))"
  using assms by (auto simp add: CheckPermission_def split: option.splits)

theorem CheckPermission_unknown_region_witness:
  "\<not> ValidateRegion ex_system ''XX''
   \<and> CheckPermission ex_heap ex_system ''KID'' ''XX'' =
       Some (Inr (False, Some (InvalidRegion ''XX''), []))"
  using CheckPermission_unknown_region[of ex_system "''XX''" ex_heap "''KID''"]
  by (simp add: ex_system_facts)

text \<open>
  For an unregistered name the error is the unknown-distributor one, although the region
  is not in the catalog either.
\<close>

theorem unknown_distributor_first_counterexample:
  "\<not> ValidateRegion ex_system ''XX''
   \<and> CheckPermission ex_heap ex_system ''NOBODY'' ''XX'' =
       Some (Inr (False, Some (DistributorMissing ''NOBODY''), []))"
  by (simp add: CheckPermission_def ex_system_facts)

section \<open>Totality\<close>

lemma isSubregion_empty_candidate:
  "isSubregion [] [s] = Inl IndexOutOfRange"
  by (simp add: isSubregion_def elem_eq_def slice_index_def len_def)

lemma HasPermission_returns:
  "parent_chain h d \<Longrightarrow> \<exists>answer calls. HasPermission h d region = Some (Inr (answer, calls))"
proof (induction rule: parent_chain.induct)
  case (root d h)
  then show ?case by (auto simp add: HasPermission_unfold)
next
  case (child d h p)
  then show ?case by (auto simp add: HasPermission_unfold)
qed

text \<open>
  C10. \<open>HasPermission\<close> returns, and without panic, on every region string: splitting a
  region on \<open>-\<close> gives at least one segment, also for the empty string; on the segments
  of a region \<open>isSubregion\<close> returns a Boolean for every pattern, so no index it reads is
  out of range; and for every distributor whose parent chain is acyclic the evaluation
  returns an answer.
\<close>

theorem HasPermission_total:
  "strings_Split region CHR ''-'' \<noteq> []
   \<and> (\<exists>b. isSubregion (strings_Split region CHR ''-'') pattern = Inr b)
   \<and> (parent_chain h d \<longrightarrow>
        (\<exists>answer calls. HasPermission h d region = Some (Inr (answer, calls))))"
  by (simp add: strings_Split_nonempty isSubregion_nonempty HasPermission_returns)

lemma ex_chain: "parent_chain ex_heap 1"
proof (rule parent_chain.child)
  show "1 < length ex_heap" by (simp add: ex_heap_facts)
  show "Parent (ex_heap ! 1) = Some 0" by (simp add: ex_heap_facts ex_kid_def)
  show "parent_chain ex_heap 0"
    by (rule parent_chain.root) (simp_all add: ex_heap_facts ex_root_def)
qed

theorem HasPermission_total_witness:
  "parent_chain ex_heap 1
   \<and> strings_Split '''' CHR ''-'' = [[]]
   \<and> HasPermission ex_heap 1 '''' = Some (Inr (False, [1]))
   \<and> strings_Split ''A-NYC-NY-US'' CHR ''-'' = [''A'', ''NYC'', ''NY'', ''US'']
   \<and> HasPermission ex_heap 1 ''A-NYC-NY-US'' = Some (Inr (True, [1, 0]))"
proof -
  have c: "parent_chain ex_heap 1" by (rule ex_chain)
  from HasPermission_total[of "''''" "[''NY'', ''US'']" ex_heap 1] c
  have "\<exists>answer calls. HasPermission ex_heap 1 '''' = Some (Inr (answer, calls))" by simp
  moreover have "HasPermission ex_heap 1 '''' = Some (Inr (False, [1]))" by code_simp
  moreover have "HasPermission ex_heap 1 ''A-NYC-NY-US'' = Some (Inr (True, [1, 0]))" by code_simp
  ultimately show ?thesis using c by simp
qed

section \<open>Registration\<close>

text \<open>
  C7. \<open>AddDistributor\<close> fails with the duplicate error, changing nothing, when the name is
  registered; fails with the missing-parent error, changing nothing, when the name is
  free and the parent name is non-empty and unregistered; and otherwise registers the
  name at a fresh object with empty include and exclude maps whose parent is the
  resolved parent, or none when the parent name is empty: the old objects keep their
  addresses and contents, and the other names keep their registrations. Whatever the
  first call with an empty parent name did, a second such call with the same name fails
  with the duplicate error.
\<close>

theorem AddDistributor_cases:
  "(distributors ds name \<noteq> None \<longrightarrow>
      AddDistributor h ds name parentName = (Some (DistributorExists name), h, ds))
   \<and> (distributors ds name = None \<and> parentName \<noteq> [] \<and> distributors ds parentName = None \<longrightarrow>
      AddDistributor h ds name parentName = (Some (ParentMissing parentName), h, ds))
   \<and> (distributors ds name = None \<and> (parentName = [] \<or> distributors ds parentName \<noteq> None) \<longrightarrow>
      AddDistributor h ds name parentName =
        (None,
         h @ [\<lparr>Name = name,
               Parent = (if parentName = [] then None else distributors ds parentName),
               Includes = Some [], Excludes = Some [], Locations = locations ds\<rparr>],
         ds\<lparr>distributors := (distributors ds)(name \<mapsto> length h)\<rparr>))
   \<and> (case AddDistributor h ds name [] of
        (e, h1, ds1) \<Rightarrow>
          AddDistributor h1 ds1 name [] = (Some (DistributorExists name), h1, ds1))"
  by (auto simp add: AddDistributor_def NewDistributor_def split: option.splits)


theorem AddDistributor_cases_witness:
  "distributors ex_system ''KID'' \<noteq> None
   \<and> AddDistributor ex_heap ex_system ''KID'' [] = (Some (DistributorExists ''KID''), ex_heap, ex_system)
   \<and> distributors ex_system ''NEW'' = None \<and> distributors ex_system ''NOBODY'' = None
   \<and> AddDistributor ex_heap ex_system ''NEW'' ''NOBODY'' =
        (Some (ParentMissing ''NOBODY''), ex_heap, ex_system)
   \<and> distributors ex_system ''KID'' = Some 1
   \<and> AddDistributor ex_heap ex_system ''NEW'' ''KID'' =
        (None,
         ex_heap @ [\<lparr>Name = ''NEW'', Parent = Some 1, Includes = Some [], Excludes = Some [],
                     Locations = locations ex_system\<rparr>],
         ex_system\<lparr>distributors := (distributors ex_system)(''NEW'' \<mapsto> 2)\<rparr>)"
  using AddDistributor_cases[of ex_system "''KID''" ex_heap "[]"]
    AddDistributor_cases[of ex_system "''NEW''" ex_heap "''NOBODY''"]
    AddDistributor_cases[of ex_system "''NEW''" ex_heap "''KID''"]
  by (simp add: ex_system_def ex_heap_facts)

section \<open>Enumeration order\<close>

lemma same_rules_contains:
  "same_rules a b \<Longrightarrow>
     some_rule_contains (Includes a) region = some_rule_contains (Includes b) region
   \<and> some_rule_contains (Excludes a) region = some_rule_contains (Excludes b) region"
  by (simp add: same_rules_def some_rule_contains_def)

lemma reorder_step:
  assumes "HasPermission h d region = Some y"
  shows "list_all2 same_rules h h' \<longrightarrow> HasPermission h' d region = Some y"
  using assms
proof (induction arbitrary: h' rule: HasPermission.raw_induct[rotated 1, consumes 1])
  case (1 HasP h d region y)
  show ?case
  proof
    assume rel: "list_all2 same_rules h h'"
    then have len: "length h' = length h" by (simp add: list_all2_lengthD)
    show "HasPermission h' d region = Some y"
    proof (cases "length h \<le> d")
      case True
      with 1(2) len show ?thesis by (simp add: HasPermission_invalid)
    next
      case False
      then have d: "d < length h" "d < length h'" using len by simp_all
      from rel d have sr: "same_rules (h ! d) (h' ! d)" by (simp add: list_all2_nthD)
      note c = same_rules_contains[OF sr, of region]
      from sr have par: "Parent (h' ! d) = Parent (h ! d)" by (simp add: same_rules_def)
      show ?thesis
      proof (cases "\<not> some_rule_contains (Excludes (h ! d)) region
               \<and> some_rule_contains (Includes (h ! d)) region \<and> Parent (h ! d) \<noteq> None")
        case False
        with 1(2) d c par show ?thesis
          by (auto simp add: HasPermission_unfold range_match_rules Let_def split: if_splits)
      next
        case True
        then obtain p where p: "Parent (h ! d) = Some p" by auto
        with True 1(2) d have "Option.bind (HasP h p region)
            (\<lambda>r. Some (map_sum id (\<lambda>(answer, calls). (answer, d # calls)) r)) = Some y"
          by (simp add: range_match_rules Let_def)
        then obtain r where r: "HasP h p region = Some r"
          and y: "y = map_sum id (\<lambda>(answer, calls). (answer, d # calls)) r"
          by (auto simp: bind_eq_Some_conv)
        from 1(1)[OF r] rel have "HasPermission h' p region = Some r" by simp
        with True p par c d y show ?thesis by (simp add: HasPermission_unfold)
      qed
    qed
  qed
qed

lemma same_rules_sym: "same_rules a b \<Longrightarrow> same_rules b a"
  by (auto simp: same_rules_def)

lemma heaps_sym: "list_all2 same_rules h h' \<Longrightarrow> list_all2 same_rules h' h"
  by (auto simp: list_all2_conv_all_nth same_rules_sym)

text \<open>
  C9. The evaluation does not depend on the order in which the rules are enumerated: on
  two heaps whose objects agree, address by address, in name, parent, set of include keys
  and set of exclude keys, \<open>HasPermission\<close> gives the same result for every distributor
  and every region (the same answer and calls, or the same panic, or no return on
  either).
\<close>

theorem HasPermission_order_independent:
  assumes "list_all2 same_rules h h'"
  shows "HasPermission h d region = HasPermission h' d region"
proof (cases "HasPermission h d region")
  case (Some y)
  with reorder_step[OF Some] assms show ?thesis by simp
next
  case None
  show ?thesis
  proof (cases "HasPermission h' d region")
    case (Some y)
    with reorder_step[OF Some] heaps_sym[OF assms] None show ?thesis by simp
  next
    case None
    with \<open>HasPermission h d region = None\<close> show ?thesis by simp
  qed
qed

theorem HasPermission_order_independent_witness:
  "list_all2 same_rules [ex_root_a, ex_kid] [ex_root_b, ex_kid]
   \<and> HasPermission [ex_root_a, ex_kid] 1 ''NY-US'' = Some (Inr (True, [1, 0]))
   \<and> HasPermission [ex_root_b, ex_kid] 1 ''NY-US'' = Some (Inr (True, [1, 0]))"
proof -
  have r: "list_all2 same_rules [ex_root_a, ex_kid] [ex_root_b, ex_kid]"
    by (auto simp add: same_rules_def ex_root_a_def ex_root_b_def range_keys_def)
  have a: "HasPermission [ex_root_a, ex_kid] 1 ''NY-US'' = Some (Inr (True, [1, 0]))"
    by code_simp
  from r a HasPermission_order_independent[OF r, of 1 "''NY-US''"] show ?thesis by simp
qed

end
